theory Spec2Isabelle
  imports Main "HOL-Library.Sublist"
begin

section \<open>JavaScript strings\<close>

text \<open>
  A JavaScript string is a sequence of UTF-16 code units, and \<open>length\<close>, \<open>indexOf\<close>,
  \<open>substring\<close> and the regular expressions of the sources all count code units. The model
  takes \<^typ>\<open>char\<close> as the code unit, so it covers the strings whose code units are below
  256; \<^typ>\<open>string\<close> is \<^typ>\<open>char list\<close>.
\<close>

definition dq :: char where
  "dq = CHR 0x22"

definition nl :: char where
  "nl = CHR 0x0A"

text \<open>The class \<open>\s\<close> of a regular expression, which is also what \<open>trim\<close> strips.\<close>

definition isSpace :: "char \<Rightarrow> bool" where
  "isSpace c = (c = CHR 0x09 \<or> c = CHR 0x0A \<or> c = CHR 0x0B \<or> c = CHR 0x0C \<or> c = CHR 0x0D
     \<or> c = CHR 0x20 \<or> c = CHR 0xA0)"

definition trim :: "string \<Rightarrow> string" where
  "trim s = rev (dropWhile isSpace (rev (dropWhile isSpace s)))"

text \<open>\<open>s.includes(sub)\<close>.\<close>

fun str_includes :: "string \<Rightarrow> string \<Rightarrow> bool" where
  "str_includes [] sub = (sub = [])"
| "str_includes (c # cs) sub = (prefix sub (c # cs) \<or> str_includes cs sub)"

text \<open>\<open>s.indexOf(c)\<close> and \<open>s.lastIndexOf(c)\<close> for a one-character needle: \<open>-1\<close> when absent.\<close>

fun indexOf :: "string \<Rightarrow> char \<Rightarrow> int" where
  "indexOf [] c = - 1"
| "indexOf (x # xs) c =
     (if x = c then 0 else (let i = indexOf xs c in if i = - 1 then - 1 else i + 1))"

fun lastIndexOf :: "string \<Rightarrow> char \<Rightarrow> int" where
  "lastIndexOf [] c = - 1"
| "lastIndexOf (x # xs) c =
     (let j = lastIndexOf xs c in if j \<noteq> - 1 then j + 1 else if x = c then 0 else - 1)"

text \<open>
  \<open>s.substring(a, b)\<close>: both indices are clamped to \<open>[0, length]\<close>, and they are swapped
  when the first is the larger.
\<close>

definition substring :: "string \<Rightarrow> int \<Rightarrow> int \<Rightarrow> string" where
  "substring s a b =
     (let n = int (length s);
          a' = max 0 (min a n);
          b' = max 0 (min b n);
          lo = min a' b';
          hi = max a' b'
      in take (nat (hi - lo)) (drop (nat lo) s))"

text \<open>
  \<open>xs.slice(0, n)\<close> for an integer \<open>n\<close>: a negative \<open>n\<close> counts from the end of the array.
\<close>

definition slice0 :: "'a list \<Rightarrow> int \<Rightarrow> 'a list" where
  "slice0 xs n = (if n < 0 then take (nat (int (length xs) + n)) xs else take (nat n) xs)"

section \<open>Extraction of JSON from model output\<close>

text \<open>
  All three copies of \<open>extractJSON\<close> start with the same regular expression,
  \<^verbatim>\<open>/```(?:json)?\s*(\{[\s\S]*?\})\s*```/\<close>, and return its group 1 on a match.
  Matching at one start position is deterministic: after the fence, \<open>json\<close> is skipped when
  it is there, then all white space, then a \<open>{\<close> must follow (no shorter choice of the
  greedy parts can succeed, since the character they would leave is neither white space nor
  \<open>{\<close>); the lazy body ends at the first \<open>}\<close> that is followed by white space and a fence.
\<close>

definition fence :: string where
  "fence = ''```''"

fun lazyBody :: "string \<Rightarrow> string option" where
  "lazyBody [] = None"
| "lazyBody (c # cs) =
     (if c = CHR ''}'' \<and> prefix fence (dropWhile isSpace cs) then Some [c]
      else map_option ((#) c) (lazyBody cs))"

definition matchHere :: "string \<Rightarrow> string option" where
  "matchHere s =
     (if prefix fence s then
        (let r = drop 3 s;
             r' = (if prefix ''json'' r then drop 4 r else r)
         in case dropWhile isSpace r' of
              [] \<Rightarrow> None
            | c # cs \<Rightarrow> if c = CHR ''{'' then map_option ((#) c) (lazyBody cs) else None)
      else None)"

text \<open>The leftmost match: \<open>text.match(...)\<close>, reduced to its group 1.\<close>

fun codeBlockMatch :: "string \<Rightarrow> string option" where
  "codeBlockMatch [] = None"
| "codeBlockMatch (c # cs) =
     (case matchHere (c # cs) of Some g \<Rightarrow> Some g | None \<Rightarrow> codeBlockMatch cs)"

text \<open>
  \<open>extractJSON\<close> of \<open>core/feedback.ts\<close> and of the research engine (the two are the same
  text): the fenced block, else the slice from the first \<open>{\<close> to the last \<open>}\<close>. \<open>None\<close>
  is \<open>null\<close>.
\<close>

definition extractJSON :: "string \<Rightarrow> string option" where
  "extractJSON text =
     (case codeBlockMatch text of
        Some g \<Rightarrow> Some g
      | None \<Rightarrow>
          (let startIndex = indexOf text (CHR ''{'');
               endIndex = lastIndexOf text (CHR ''}'')
           in if startIndex = - 1 \<or> endIndex = - 1 then None
              else Some (substring text startIndex (endIndex + 1))))"





section \<open>Errors, the outside world and waiting\<close>

text \<open>
  An error object, as the calls of the two services and \<open>new Error\<close> throw it: its
  \<open>message\<close>, and the \<open>statusCode\<close> that the errors of the search client carry. Either
  property can be missing (\<open>undefined\<close>).
\<close>

datatype js_error = JsError (message: "string option") (statusCode: "int option")

text \<open>\<open>new Error(m)\<close>.\<close>

definition Error :: "string \<Rightarrow> js_error" where
  "Error m = JsError (Some m) None"

text \<open>\<open>e.message?.includes(s)\<close>, read as a condition: \<open>undefined\<close> is falsy.\<close>

definition messageIncludes :: "js_error \<Rightarrow> string \<Rightarrow> bool" where
  "messageIncludes e s = (case message e of None \<Rightarrow> False | Some m \<Rightarrow> str_includes m s)"

text \<open>
  What a run does to the outside, in order: the waits (\<open>delay\<close>, in milliseconds), the
  requests to the search service (query and result limit) and the prompts sent to the
  language model. The state of the two services is the abstract \<open>ext\<close>: a service answers
  from it and changes it, so an answer may depend on everything asked before. The limiter
  of each module (\<open>pLimit\<close>) runs the one task of this sequential flow at once, and the
  console output is left out.
\<close>

datatype event = Slept int | Searched string int | Generated string

record 'x world =
  ext :: 'x
  events :: "event list"

type_synonym ('a, 'x) task = "'x world \<Rightarrow> (js_error + 'a) \<times> 'x world"

definition delay :: "int \<Rightarrow> 'x world \<Rightarrow> 'x world" where
  "delay ms w = w\<lparr>events := events w @ [Slept ms]\<rparr>"

text \<open>A call of a service: the event is recorded, the service answers and moves on.\<close>

definition perform :: "event \<Rightarrow> ('x \<Rightarrow> 'r \<times> 'x) \<Rightarrow> 'x world \<Rightarrow> 'r \<times> 'x world" where
  "perform ev service w =
     (case service (ext w) of (r, x) \<Rightarrow> (r, \<lparr>ext = x, events = events w @ [ev]\<rparr>))"

section \<open>Retry with backoff\<close>

text \<open>
  Each of the three modules has its own \<open>retry(fn, retries = 3, baseDelay)\<close>. They differ in
  how a failure is classified as a rate limit and in the factor of the longer wait. The
  retry count is a natural number (every call in the repository uses the default 3).
\<close>

fun retry_feedback :: "('a, 'x) task \<Rightarrow> nat \<Rightarrow> int \<Rightarrow> ('a, 'x) task" where
  "retry_feedback fn retries baseDelay w =
     (case fn w of
        (Inr v, w1) \<Rightarrow> (Inr v, w1)
      | (Inl e, w1) \<Rightarrow>
          (case retries of
             0 \<Rightarrow> (Inl e, w1)
           | Suc r \<Rightarrow>
               (let isRateLimit = (messageIncludes e ''429'' \<or> messageIncludes e ''quota'');
                    waitTime = (if isRateLimit then baseDelay * 2 else baseDelay)
                in retry_feedback fn r (waitTime * 2) (delay waitTime w1))))"

fun retry_websearch :: "('a, 'x) task \<Rightarrow> nat \<Rightarrow> int \<Rightarrow> ('a, 'x) task" where
  "retry_websearch fn retries baseDelay w =
     (case fn w of
        (Inr v, w1) \<Rightarrow> (Inr v, w1)
      | (Inl e, w1) \<Rightarrow>
          (case retries of
             0 \<Rightarrow> (Inl e, w1)
           | Suc r \<Rightarrow>
               (let isRateLimit = (statusCode e = Some 429);
                    waitTime = (if isRateLimit then baseDelay * 4 else baseDelay)
                in retry_websearch fn r (waitTime * 2) (delay waitTime w1))))"

fun retry_engine :: "('a, 'x) task \<Rightarrow> nat \<Rightarrow> int \<Rightarrow> ('a, 'x) task" where
  "retry_engine fn retries baseDelay w =
     (case fn w of
        (Inr v, w1) \<Rightarrow> (Inr v, w1)
      | (Inl e, w1) \<Rightarrow>
          (case retries of
             0 \<Rightarrow> (Inl e, w1)
           | Suc r \<Rightarrow>
               (let isRateLimit = (messageIncludes e ''429'' \<or> messageIncludes e ''quota'');
                    waitTime = (if isRateLimit then baseDelay * 4 else baseDelay)
                in retry_engine fn r (waitTime * 2) (delay waitTime w1))))"

declare retry_feedback.simps [simp del]
declare retry_websearch.simps [simp del]
declare retry_engine.simps [simp del]

text \<open>
  An operation given by its outcomes: the state counts the calls made, and call number
  \<open>i\<close> (from 0) has the outcome \<open>outcomes i\<close>.
\<close>

definition scripted :: "(nat \<Rightarrow> js_error + 'a) \<Rightarrow> ('a, nat) task" where
  "scripted outcomes w = (outcomes (ext w), w\<lparr>ext := Suc (ext w)\<rparr>)"

text \<open>The waits of a run, in order.\<close>

fun waits :: "event list \<Rightarrow> int list" where
  "waits [] = []"
| "waits (Slept ms # evs) = ms # waits evs"
| "waits (ev # evs) = waits evs"


section \<open>The search client (\<open>core/web-search.ts\<close>)\<close>

text \<open>
  An item of a search response carries its text as \<open>markdown\<close>, or no text. The search
  service \<open>firecrawl.search(query, {limit, ...})\<close> and the token-aware \<open>trimPrompt\<close> of
  \<open>models/providers/ai-models\<close> are parameters: the service answers with the items of
  \<open>result.data\<close> or throws, and \<open>trimPrompt(content, 15000)\<close> returns the shortened text
  or throws. The request also carries a timeout of 30 seconds and the markdown format.
\<close>

record search_item =
  markdown :: "string option"

type_synonym 'x search_service = "string \<Rightarrow> int \<Rightarrow> 'x \<Rightarrow> (js_error + search_item list) \<times> 'x"

text \<open>
  The callback of \<open>result.data.map\<close>: \<open>null\<close> (here \<open>None\<close>) for an item without content,
  where the empty string counts as no content.
\<close>

definition itemContent :: "(string \<Rightarrow> int \<Rightarrow> js_error + string) \<Rightarrow> search_item \<Rightarrow> js_error + string option" where
  "itemContent trimPrompt item =
     (case markdown item of
        None \<Rightarrow> Inr None
      | Some content \<Rightarrow>
          if content = [] then Inr None
          else (case trimPrompt content 15000 of Inl e \<Rightarrow> Inl e | Inr t \<Rightarrow> Inr (Some t)))"

fun mapContents :: "(string \<Rightarrow> int \<Rightarrow> js_error + string) \<Rightarrow> search_item list \<Rightarrow> js_error + string option list" where
  "mapContents trimPrompt [] = Inr []"
| "mapContents trimPrompt (item # items) =
     (case itemContent trimPrompt item of
        Inl e \<Rightarrow> Inl e
      | Inr c \<Rightarrow>
          (case mapContents trimPrompt items of Inl e \<Rightarrow> Inl e | Inr cs \<Rightarrow> Inr (c # cs)))"

text \<open>\<open>compact\<close> of lodash drops the falsy entries: \<open>null\<close> and the empty string.\<close>

fun compact :: "string option list \<Rightarrow> string list" where
  "compact [] = []"
| "compact (None # cs) = compact cs"
| "compact (Some c # cs) = (if c = [] then compact cs else c # compact cs)"

definition searchWeb ::
  "'x search_service \<Rightarrow> (string \<Rightarrow> int \<Rightarrow> js_error + string) \<Rightarrow> string \<Rightarrow> int \<Rightarrow> (string list, 'x) task" where
  "searchWeb firecrawl_search trimPrompt query depth w =
     (case retry_websearch
             (perform (Searched query (min (depth * 2) 5)) (firecrawl_search query (min (depth * 2) 5)))
             3 2000 w of
        (Inl e, w1) \<Rightarrow> (Inr [], w1)
      | (Inr result, w1) \<Rightarrow>
          (case mapContents trimPrompt result of
             Inl e \<Rightarrow> (Inr [], w1)
           | Inr contents \<Rightarrow> (Inr (compact contents), delay 1000 w1)))"

section \<open>Feedback questions (\<open>core/feedback.ts\<close>)\<close>

text \<open>
  The value that \<open>JSON.parse\<close> returns. An object is the list of its members, each key
  once; \<open>JSON.parse\<close> itself is a parameter of the model, which returns the value or throws.
\<close>

datatype json = JNull | JBool bool | JNum int | JStr string | JArr "json list"
  | JObj "(string \<times> json) list"

type_synonym json_parser = "string \<Rightarrow> js_error + json"

text \<open>
  The language model: \<open>model.generateContent(prompt)\<close> throws or returns a result, and
  \<open>result.response.text()\<close> throws or returns the text. A result is modelled by what its
  \<open>text()\<close> does.
\<close>

type_synonym response = "js_error + string"

type_synonym 'x language_model = "string \<Rightarrow> 'x \<Rightarrow> (js_error + response) \<times> 'x"

definition TypeError :: js_error where
  "TypeError = JsError (Some ''TypeError'') None"

text \<open>
  \<open>parsed.questions.filter\<close>: a \<open>TypeError\<close> unless \<open>parsed\<close> is an object (or another
  value with properties) whose \<open>questions\<close> is an array.
\<close>

definition questionsOf :: "json \<Rightarrow> js_error + json list" where
  "questionsOf parsed =
     (case parsed of
        JObj members \<Rightarrow>
          (case map_of members ''questions'' of Some (JArr qs) \<Rightarrow> Inr qs | _ \<Rightarrow> Inl TypeError)
      | _ \<Rightarrow> Inl TypeError)"

text \<open>The \<open>filter\<close> and the \<open>map(q => q.trim())\<close> over the array.\<close>

fun validStrings :: "json list \<Rightarrow> string list" where
  "validStrings [] = []"
| "validStrings (JStr q # qs) =
     (if length (trim q) > 0 \<and> str_includes q ''?'' then trim q # validStrings qs
      else validStrings qs)"
| "validStrings (q # qs) = validStrings qs"

text \<open>
  The block that both attempts run on the text of the model: extraction, parsing and
  validation. It throws what the source throws (the two attempts differ in the messages).
\<close>

definition parseQuestions :: "json_parser \<Rightarrow> int \<Rightarrow> string \<Rightarrow> string \<Rightarrow> string \<Rightarrow> js_error + string list" where
  "parseQuestions JSON_parse numQuestions noJson noValid text =
     (case extractJSON text of
        None \<Rightarrow> Inl (Error noJson)
      | Some jsonStr \<Rightarrow>
          if jsonStr = [] then Inl (Error noJson)
          else (case JSON_parse jsonStr of
                  Inl e \<Rightarrow> Inl e
                | Inr parsed \<Rightarrow>
                    (case questionsOf parsed of
                       Inl e \<Rightarrow> Inl e
                     | Inr qs \<Rightarrow>
                         (let validQuestions = slice0 (validStrings qs) numQuestions
                          in if length validQuestions = 0 then Inl (Error noValid)
                             else Inr validQuestions))))"

text \<open>A number in a template literal, for integers.\<close>

fun digitsOf :: "nat \<Rightarrow> string" where
  "digitsOf n =
     (if n < 10 then [char_of (48 + n)] else digitsOf (n div 10) @ [char_of (48 + n mod 10)])"

declare digitsOf.simps [simp del]

definition showInt :: "int \<Rightarrow> string" where
  "showInt i = (if i < 0 then CHR ''-'' # digitsOf (nat (- i)) else digitsOf (nat i))"

definition feedbackPrompt :: "string \<Rightarrow> int \<Rightarrow> string" where
  "feedbackPrompt query numQuestions = concat
     [''Given this research query: '', [dq], query, [dq], [nl],
      [nl],
      ''Generate '', showInt numQuestions,
      '' insightful follow-up questions to better understand what specific aspects the user wants to research.'', [nl],
      ''The questions should help clarify the scope, priorities, and specific areas of interest.'', [nl],
      [nl],
      ''Format your response as a JSON object like this:'', [nl],
      ''{'', [nl],
      ''  '', [dq], ''questions'', [dq], '': ['', [nl],
      ''    '', [dq], ''What specific aspects of X are you most interested in?'', [dq], '','', [nl],
      ''    '', [dq], ''Are there particular Y that you want to focus on?'', [dq], '','', [nl],
      ''    '', [dq], ''How important is Z compared to other factors?'', [dq], [nl],
      ''  ]'', [nl],
      ''}'', [nl],
      [nl],
      ''IMPORTANT: Return ONLY the JSON object, no other text.'']"

definition feedbackRetryPrompt :: "string \<Rightarrow> int \<Rightarrow> string" where
  "feedbackRetryPrompt query numQuestions = concat
     [feedbackPrompt query numQuestions, [nl], [nl],
      ''PREVIOUS ATTEMPT FAILED. You MUST return ONLY a valid JSON object with an array of questions. No other text.'']"

text \<open>One call of the model through the limiter and \<open>retry\<close> (3 retries, 1000 ms).\<close>

definition askModel :: "'x language_model \<Rightarrow> string \<Rightarrow> (response, 'x) task" where
  "askModel generateContent prompt =
     retry_feedback (perform (Generated prompt) (generateContent prompt)) 3 1000"

text \<open>The body of the outer \<open>try\<close> of \<open>generateFeedback\<close>, with the inner \<open>try\<close> and \<open>catch\<close>.\<close>

definition generateFeedback_try ::
  "'x language_model \<Rightarrow> json_parser \<Rightarrow> string \<Rightarrow> int \<Rightarrow> (string list, 'x) task" where
  "generateFeedback_try generateContent JSON_parse query numQuestions w =
     (case askModel generateContent (feedbackPrompt query numQuestions) w of
        (Inl e, w1) \<Rightarrow> (Inl e, w1)
      | (Inr result, w1) \<Rightarrow>
          (case result of
             Inl e \<Rightarrow> (Inl e, w1)
           | Inr text \<Rightarrow>
               (case parseQuestions JSON_parse numQuestions ''No JSON found in response''
                       ''No valid questions found in response'' text of
                  Inr validQuestions \<Rightarrow> (Inr validQuestions, w1)
                | Inl e \<Rightarrow>
                    (case askModel generateContent (feedbackRetryPrompt query numQuestions) w1 of
                       (Inl e2, w2) \<Rightarrow> (Inl e2, w2)
                     | (Inr retryResult, w2) \<Rightarrow>
                         (case retryResult of
                            Inl e2 \<Rightarrow> (Inl e2, w2)
                          | Inr retryText \<Rightarrow>
                              (parseQuestions JSON_parse numQuestions
                                 ''Failed to get JSON response after retry''
                                 ''No valid questions found in retry response'' retryText, w2))))))"

text \<open>The default questions of the outer \<open>catch\<close>.\<close>

definition defaultQuestions :: "string \<Rightarrow> string list" where
  "defaultQuestions query =
     [concat [''What specific aspects of '', [dq], query, [dq], '' are you most interested in?''],
      ''What are your main priorities or goals for this research?'',
      ''Are there any specific limitations or constraints we should consider?'']"

definition generateFeedback ::
  "'x language_model \<Rightarrow> json_parser \<Rightarrow> string \<Rightarrow> int \<Rightarrow> (string list, 'x) task" where
  "generateFeedback generateContent JSON_parse query numQuestions w =
     (case generateFeedback_try generateContent JSON_parse query numQuestions w of
        (Inr validQuestions, w1) \<Rightarrow> (Inr validQuestions, w1)
      | (Inl e, w1) \<Rightarrow> (Inr (slice0 (defaultQuestions query) numQuestions), w1))"

section \<open>The research engine\<close>

subsection \<open>\<open>processContents\<close>: the chunks\<close>

definition maxChunkSize :: int where
  "maxChunkSize = 15000"

text \<open>
  The loop over \<open>contents\<close>, with the chunks pushed so far and \<open>currentChunk\<close>; the last
  chunk is pushed after the loop when it is not the empty string.
\<close>

fun chunkLoop :: "string list \<Rightarrow> string list \<Rightarrow> string \<Rightarrow> string list \<times> string" where
  "chunkLoop [] chunks currentChunk = (chunks, currentChunk)"
| "chunkLoop (content # rest) chunks currentChunk =
     (if int (length currentChunk) + int (length content) > maxChunkSize
      then chunkLoop rest (chunks @ [currentChunk]) content
      else chunkLoop rest chunks (currentChunk @ [nl, nl] @ content))"

definition chunkContents :: "string list \<Rightarrow> string list" where
  "chunkContents contents =
     (case chunkLoop contents [] [] of
        (chunks, currentChunk) \<Rightarrow> if currentChunk \<noteq> [] then chunks @ [currentChunk] else chunks)"

subsection \<open>\<open>processContents\<close>: the merge of the results of the chunks\<close>

text \<open>
  The types are those of the signature of \<open>processContents\<close>: the result of a chunk and the
  merged result have the same three properties.
\<close>

record finding =
  title :: string
  details :: "string list"

record analysis =
  summary :: string
  keyFindings :: "finding list"
  sources :: "string list"

text \<open>\<open>arr.findIndex(p)\<close>: \<open>-1\<close> when no element satisfies \<open>p\<close>.\<close>

fun findIndex :: "('a \<Rightarrow> bool) \<Rightarrow> 'a list \<Rightarrow> int" where
  "findIndex p [] = - 1"
| "findIndex p (x # xs) =
     (if p x then 0 else (let i = findIndex p xs in if i = - 1 then - 1 else i + 1))"

text \<open>\<open>arr.filter((f, i, arr) => arr.findIndex(g => g.title === f.title) === i)\<close>.\<close>

definition dedupFindings :: "finding list \<Rightarrow> finding list" where
  "dedupFindings arr =
     map snd (filter (\<lambda>(i, f). findIndex (\<lambda>g. title g = title f) arr = int i) (enumerate 0 arr))"

text \<open>\<open>[...new Set(xs)]\<close>: a set keeps its elements in the order of their first insertion.\<close>

definition setAdd :: "'a list \<Rightarrow> 'a \<Rightarrow> 'a list" where
  "setAdd elems x = (if x \<in> set elems then elems else elems @ [x])"

definition newSet :: "'a list \<Rightarrow> 'a list" where
  "newSet xs = foldl setAdd [] xs"

text \<open>\<open>xs.join(sep)\<close> on strings.\<close>

fun join :: "string \<Rightarrow> string list \<Rightarrow> string" where
  "join sep [] = []"
| "join sep [x] = x"
| "join sep (x # y # ys) = x @ sep @ join sep (y # ys)"

definition mergeResults :: "analysis list \<Rightarrow> analysis" where
  "mergeResults chunkResults =
     (let merged = \<lparr>summary = join [nl, nl] (map summary chunkResults),
                    keyFindings = concat (map keyFindings chunkResults),
                    sources = concat (map sources chunkResults)\<rparr>
      in \<lparr>summary = summary merged,
          keyFindings = dedupFindings (keyFindings merged),
          sources = newSet (sources merged)\<rparr>)"

subsection \<open>\<open>deepResearch\<close>\<close>

text \<open>
  The object that \<open>deepResearch\<close> returns. \<open>feedbackQuestions\<close> and \<open>error\<close> are present in
  some of the returned objects only. The report has its own names for the properties of
  the analysis.
\<close>

record report =
  executiveSummary :: string
  reportFindings :: "finding list"
  reportSources :: "string list"

record research_result =
  query :: string
  feedbackQuestions :: "string list option"
  searchQueries :: "string list"
  error :: "string option"
  report :: report

text \<open>
  What a step of \<open>deepResearch\<close> can throw. JavaScript throws any value: an error object
  (or another value with properties, whose \<open>message\<close> is then missing), but also \<open>null\<close>
  or \<open>undefined\<close>, as when a promise is rejected without a reason.
\<close>

datatype thrown = Thrown js_error | ThrownNull | ThrownUndefined

type_synonym ('a, 'x) step = "'x world \<Rightarrow> (thrown + 'a) \<times> 'x world"


text \<open>
  The functions that \<open>deepResearch\<close> calls are its first four parameters: \<open>feedback\<close>
  stands for \<open>generateFeedback\<close>, \<open>serpQueries\<close> for \<open>generateSerpQueries\<close>, \<open>search\<close>
  for \<open>searchWeb\<close> and \<open>process\<close> for \<open>processContents\<close>. Each returns or throws, and
  changes the world.
\<close>

type_synonym 'x feedback_step = "string \<Rightarrow> int \<Rightarrow> (string list, 'x) step"
type_synonym 'x queries_step = "string \<Rightarrow> int \<Rightarrow> (string list, 'x) step"
type_synonym 'x search_step = "string \<Rightarrow> int \<Rightarrow> (string list, 'x) step"
type_synonym 'x analysis_step = "string \<Rightarrow> string list \<Rightarrow> (analysis, 'x) step"

text \<open>The loop over \<open>searchQueries\<close>: one second of delay after every search but the last.\<close>

fun searchLoop :: "'x search_step \<Rightarrow> int \<Rightarrow> string list \<Rightarrow> string list list \<Rightarrow> (string list list, 'x) step" where
  "searchLoop search depth [] searchResults w = (Inr searchResults, w)"
| "searchLoop search depth (q # qs) searchResults w =
     (case search q depth w of
        (Inl e, w1) \<Rightarrow> (Inl e, w1)
      | (Inr results, w1) \<Rightarrow>
          searchLoop search depth qs (searchResults @ [results])
            (if qs \<noteq> [] then delay 1000 w1 else w1))"

text \<open>The body of the \<open>try\<close>.\<close>

definition deepResearch_try ::
  "'x feedback_step \<Rightarrow> 'x queries_step \<Rightarrow> 'x search_step \<Rightarrow> 'x analysis_step
     \<Rightarrow> string \<Rightarrow> int \<Rightarrow> int \<Rightarrow> (research_result, 'x) step" where
  "deepResearch_try feedback serpQueries search process qry breadth depth w =
     (if breadth = 1 \<and> depth = 1 then
        (case feedback qry 3 w of
           (Inl e, w1) \<Rightarrow> (Inl e, w1)
         | (Inr questions, w1) \<Rightarrow>
             (Inr \<lparr>query = qry, feedbackQuestions = Some questions, searchQueries = [],
                   error = None,
                   report = \<lparr>executiveSummary = [], reportFindings = [], reportSources = []\<rparr>\<rparr>,
              w1))
      else
        (case serpQueries qry breadth w of
           (Inl e, w1) \<Rightarrow> (Inl e, w1)
         | (Inr queries, w1) \<Rightarrow>
             (case searchLoop search depth queries [] w1 of
                (Inl e, w2) \<Rightarrow> (Inl e, w2)
              | (Inr searchResults, w2) \<Rightarrow>
                  (case process qry (concat searchResults) w2 of
                     (Inl e, w3) \<Rightarrow> (Inl e, w3)
                   | (Inr a, w3) \<Rightarrow>
                       (Inr \<lparr>query = qry, feedbackQuestions = None, searchQueries = queries,
                             error = None,
                             report = \<lparr>executiveSummary = summary a,
                                       reportFindings = keyFindings a,
                                       reportSources = sources a\<rparr>\<rparr>,
                        w3)))))"

text \<open>
  \<open>`Research failed: ${e.message}`\<close> in the \<open>catch\<close>: a missing message prints as
  \<open>undefined\<close>, and reading \<open>message\<close> of \<open>null\<close> or of \<open>undefined\<close> throws a \<open>TypeError\<close>.
\<close>

definition failureText :: "thrown \<Rightarrow> js_error + string" where
  "failureText e =
     (case e of
        Thrown err \<Rightarrow>
          Inr (''Research failed: '' @ (case message err of None \<Rightarrow> ''undefined'' | Some m \<Rightarrow> m))
      | ThrownNull \<Rightarrow> Inl TypeError
      | ThrownUndefined \<Rightarrow> Inl TypeError)"

text \<open>The object that the \<open>catch\<close> returns, for the error string.\<close>

definition failedResult :: "string \<Rightarrow> string \<Rightarrow> research_result" where
  "failedResult qry errorText =
     \<lparr>query = qry, feedbackQuestions = None, searchQueries = [],
      error = Some errorText,
      report = \<lparr>executiveSummary = ''Research could not be completed due to an error.'',
                reportFindings = [], reportSources = []\<rparr>\<rparr>"

text \<open>The \<open>catch\<close> block, for the thrown value: it returns the error object, or throws.\<close>

definition deepResearch_catch :: "string \<Rightarrow> thrown \<Rightarrow> (research_result, 'x) step" where
  "deepResearch_catch qry e w =
     (case failureText e of
        Inl typeError \<Rightarrow> (Inl (Thrown typeError), w)
      | Inr errorText \<Rightarrow> (Inr (failedResult qry errorText), w))"

definition deepResearch ::
  "'x feedback_step \<Rightarrow> 'x queries_step \<Rightarrow> 'x search_step \<Rightarrow> 'x analysis_step
     \<Rightarrow> string \<Rightarrow> int \<Rightarrow> int \<Rightarrow> (research_result, 'x) step" where
  "deepResearch feedback serpQueries search process qry breadth depth w =
     (case deepResearch_try feedback serpQueries search process
             qry breadth depth w of
        (Inr r, w1) \<Rightarrow> (Inr r, w1)
      | (Inl e, w1) \<Rightarrow> deepResearch_catch qry e w1)"

section \<open>Properties of the retry wrappers\<close>

lemma scripted_at:
  "scripted outcomes \<lparr>ext = n, events = evs\<rparr> = (outcomes n, \<lparr>ext = Suc n, events = evs\<rparr>)"
  by (simp add: scripted_def)

lemma delay_at: "delay ms \<lparr>ext = x, events = evs\<rparr> = \<lparr>ext = x, events = evs @ [Slept ms]\<rparr>"
  by (simp add: delay_def)

lemma waits_Slept: "waits (map Slept ms) = ms"
  by (induction ms) simp_all

lemma backoff_shift:
  "Slept b # map (\<lambda>i. Slept (b * 2 * 2 ^ i)) [0..<k] = map (\<lambda>i. Slept (b * 2 ^ i)) [0..<Suc k]"
proof -
  have "map (\<lambda>i. Slept (b * 2 ^ i)) [0..<Suc k]
      = Slept (b * 2 ^ 0) # map (\<lambda>i. Slept (b * 2 ^ i)) [Suc 0..<Suc k]"
    by (simp add: upt_conv_Cons del: upt_Suc)
  also have "map (\<lambda>i. Slept (b * 2 ^ i)) [Suc 0..<Suc k]
      = map (\<lambda>i. Slept (b * 2 ^ i)) (map Suc [0..<k])"
    by (simp only: map_Suc_upt)
  finally show ?thesis by (simp add: comp_def mult.assoc)
qed

lemma backoff_total: "sum_list (map (\<lambda>i. b * 2 ^ i) [0..<k]) = b * (2 ^ k - 1)" for b :: int
  by (induction k) (simp_all add: algebra_simps)

text \<open>
  \<open>k\<close> failures that are not rate limits, then a success, within the retry count: the
  calls start at call number \<open>n\<close> of the operation.
\<close>

lemma retry_websearch_succeeds:
  "k \<le> r \<Longrightarrow> (\<forall>i<k. \<exists>e. outcomes (n + i) = Inl e \<and> statusCode e \<noteq> Some 429) \<Longrightarrow>
   outcomes (n + k) = Inr v \<Longrightarrow>
   retry_websearch (scripted outcomes) r b \<lparr>ext = n, events = evs\<rparr>
     = (Inr v, \<lparr>ext = Suc (n + k), events = evs @ map (\<lambda>i. Slept (b * 2 ^ i)) [0..<k]\<rparr>)"
proof (induction k arbitrary: r n b evs)
  case 0
  then show ?case
    by (subst retry_websearch.simps) (simp add: scripted_at)
next
  case (Suc k)
  from Suc.prems(1) obtain r' where r: "r = Suc r'" and kr: "k \<le> r'"
    by (cases r) auto
  from Suc.prems(2) obtain e where e: "outcomes n = Inl e" "statusCode e \<noteq> Some 429"
    by force
  have fails: "\<forall>i<k. \<exists>e. outcomes (Suc n + i) = Inl e \<and> statusCode e \<noteq> Some 429"
    using Suc.prems(2) by (metis add_Suc_shift Suc_less_eq)
  have ok: "outcomes (Suc n + k) = Inr v"
    using Suc.prems(3) by simp
  have "retry_websearch (scripted outcomes) r b \<lparr>ext = n, events = evs\<rparr>
      = retry_websearch (scripted outcomes) r' (b * 2) \<lparr>ext = Suc n, events = evs @ [Slept b]\<rparr>"
    unfolding r by (subst retry_websearch.simps) (simp add: scripted_at e delay_at)
  also have "\<dots> = (Inr v, \<lparr>ext = Suc (Suc n + k),
      events = (evs @ [Slept b]) @ map (\<lambda>i. Slept (b * 2 * 2 ^ i)) [0..<k]\<rparr>)"
    by (rule Suc.IH [OF kr fails ok])
  finally show ?case
    using backoff_shift [of b k] by simp
qed

text \<open>Failures only: the error of the last call, number \<open>n + r\<close>, is thrown.\<close>

lemma retry_websearch_exhausts:
  "(\<forall>i\<le>r. outcomes (n + i) = Inl (errs (n + i))) \<Longrightarrow>
   fst (retry_websearch (scripted outcomes) r b \<lparr>ext = n, events = evs\<rparr>) = Inl (errs (n + r))"
proof (induction r arbitrary: n b evs)
  case 0
  then show ?case
    by (subst retry_websearch.simps) (simp add: scripted_at)
next
  case (Suc r)
  have e: "outcomes n = Inl (errs n)"
    using Suc.prems by (metis add.right_neutral le0)
  have rest: "\<forall>i\<le>r. outcomes (Suc n + i) = Inl (errs (Suc n + i))"
    using Suc.prems by (metis add_Suc_shift Suc_le_mono)
  show ?case
    by (subst retry_websearch.simps) (simp add: scripted_at e delay_at Let_def Suc.IH [OF rest])
qed

text \<open>
  C4. The retry wrapper of the search client, with retry count \<open>r\<close> and base delay \<open>b\<close>,
  on an operation given by its outcomes. When the first \<open>k \<le> r\<close> calls fail without a
  rate limit and call \<open>k\<close> succeeds with \<open>v\<close>, \<open>retry\<close> returns \<open>v\<close> after \<open>k + 1\<close> calls,
  its waits are \<open>b, 2b, 4b, ...\<close> (\<open>k\<close> of them), and they add up to \<open>b (2^k - 1)\<close>. When
  the first \<open>r + 1\<close> calls all fail, \<open>retry\<close> throws the error of the last of them.
\<close>

theorem retry_websearch_backoff:
  "(k \<le> r \<and> (\<forall>i<k. \<exists>e. outcomes i = Inl e \<and> statusCode e \<noteq> Some 429) \<and> outcomes k = Inr v \<longrightarrow>
      fst (retry_websearch (scripted outcomes) r b \<lparr>ext = 0, events = []\<rparr>) = Inr v
      \<and> ext (snd (retry_websearch (scripted outcomes) r b \<lparr>ext = 0, events = []\<rparr>)) = Suc k
      \<and> waits (events (snd (retry_websearch (scripted outcomes) r b \<lparr>ext = 0, events = []\<rparr>)))
          = map (\<lambda>i. b * 2 ^ i) [0..<k]
      \<and> sum_list (waits (events (snd (retry_websearch (scripted outcomes) r b \<lparr>ext = 0, events = []\<rparr>))))
          = b * (2 ^ k - 1))
   \<and> ((\<forall>i\<le>r. outcomes i = Inl (errs i)) \<longrightarrow>
      fst (retry_websearch (scripted outcomes) r b \<lparr>ext = 0, events = []\<rparr>) = Inl (errs r))"
proof (intro conjI impI)
  assume h: "k \<le> r \<and> (\<forall>i<k. \<exists>e. outcomes i = Inl e \<and> statusCode e \<noteq> Some 429) \<and> outcomes k = Inr v"
  have run: "retry_websearch (scripted outcomes) r b \<lparr>ext = 0, events = []\<rparr>
      = (Inr v, \<lparr>ext = Suc (0 + k), events = [] @ map (\<lambda>i. Slept (b * 2 ^ i)) [0..<k]\<rparr>)"
    using h by (intro retry_websearch_succeeds) simp_all
  have w: "waits (map (\<lambda>i. Slept (b * 2 ^ i)) [0..<k]) = map (\<lambda>i. b * 2 ^ i) [0..<k]"
    using waits_Slept [of "map (\<lambda>i. b * 2 ^ i) [0..<k]"] by (simp add: comp_def)
  show "fst (retry_websearch (scripted outcomes) r b \<lparr>ext = 0, events = []\<rparr>) = Inr v"
    by (simp add: run)
  show "ext (snd (retry_websearch (scripted outcomes) r b \<lparr>ext = 0, events = []\<rparr>)) = Suc k"
    by (simp add: run)
  show "waits (events (snd (retry_websearch (scripted outcomes) r b \<lparr>ext = 0, events = []\<rparr>)))
      = map (\<lambda>i. b * 2 ^ i) [0..<k]"
    by (simp add: run w)
  show "sum_list (waits (events (snd (retry_websearch (scripted outcomes) r b \<lparr>ext = 0, events = []\<rparr>))))
      = b * (2 ^ k - 1)"
    by (simp add: run w backoff_total)
next
  assume "\<forall>i\<le>r. outcomes i = Inl (errs i)"
  then show "fst (retry_websearch (scripted outcomes) r b \<lparr>ext = 0, events = []\<rparr>) = Inl (errs r)"
    using retry_websearch_exhausts [of r outcomes 0 errs b "[]"] by simp
qed

theorem retry_websearch_backoff_witness:
  "fst (retry_websearch (scripted (\<lambda>i. if i < 2 then Inl (Error ''timeout'') else Inr (7::nat)))
          3 2000 \<lparr>ext = 0, events = []\<rparr>) = Inr 7
   \<and> waits (events (snd (retry_websearch
          (scripted (\<lambda>i. if i < 2 then Inl (Error ''timeout'') else Inr (7::nat)))
          3 2000 \<lparr>ext = 0, events = []\<rparr>))) = [2000, 4000]
   \<and> fst (retry_websearch (scripted (\<lambda>i. Inl (JsError None (Some (int i))) :: js_error + nat))
          3 2000 \<lparr>ext = 0, events = []\<rparr>) = Inl (JsError None (Some 3))"
proof -
  have two: "[0..<2] = [0, Suc 0]"
    by (simp add: upt_conv_Cons)
  have hyp: "\<forall>i<2::nat. \<exists>e. (if i < 2 then Inl (Error ''timeout'') else Inr (7::nat)) = Inl e
      \<and> statusCode e \<noteq> Some 429"
    by (simp add: Error_def)
  show ?thesis
    using retry_websearch_backoff
        [of 2 3 "\<lambda>i. if i < 2 then Inl (Error ''timeout'') else Inr (7::nat)" 7 2000 "\<lambda>i. Error ''timeout''"]
      retry_websearch_backoff
        [of 0 3 "\<lambda>i. Inl (JsError None (Some (int i))) :: js_error + nat" 0 2000
           "\<lambda>i. JsError None (Some (int i))"]
      hyp
    by (simp add: two)
qed

text \<open>One failure, then a success: the events of the run.\<close>

lemma retry_feedback_first_wait:
  "outcomes n = Inl e \<Longrightarrow> outcomes (Suc n) = Inr v \<Longrightarrow>
   retry_feedback (scripted outcomes) (Suc r) b \<lparr>ext = n, events = evs\<rparr>
     = (Inr v, \<lparr>ext = Suc (Suc n), events = evs @
          [Slept (if messageIncludes e ''429'' \<or> messageIncludes e ''quota'' then b * 2 else b)]\<rparr>)"
  by (subst retry_feedback.simps, subst retry_feedback.simps) (simp add: scripted_at delay_at)

lemma retry_engine_first_wait:
  "outcomes n = Inl e \<Longrightarrow> outcomes (Suc n) = Inr v \<Longrightarrow>
   retry_engine (scripted outcomes) (Suc r) b \<lparr>ext = n, events = evs\<rparr>
     = (Inr v, \<lparr>ext = Suc (Suc n), events = evs @
          [Slept (if messageIncludes e ''429'' \<or> messageIncludes e ''quota'' then b * 4 else b)]\<rparr>)"
  by (subst retry_engine.simps, subst retry_engine.simps) (simp add: scripted_at delay_at)

lemma retry_websearch_first_wait:
  "outcomes n = Inl e \<Longrightarrow> outcomes (Suc n) = Inr v \<Longrightarrow>
   retry_websearch (scripted outcomes) (Suc r) b \<lparr>ext = n, events = evs\<rparr>
     = (Inr v, \<lparr>ext = Suc (Suc n), events = evs @
          [Slept (if statusCode e = Some 429 then b * 4 else b)]\<rparr>)"
  by (subst retry_websearch.simps, subst retry_websearch.simps) (simp add: scripted_at delay_at)

text \<open>
  C3, as the code has it. After one failure \<open>e\<close> and then a success, the one wait of each
  wrapper is: for the search client, \<open>4 b\<close> when the status code of \<open>e\<close> is 429 (its
  message is not looked at), else \<open>b\<close>; for the research engine, \<open>4 b\<close> when the message
  of \<open>e\<close> contains \<open>429\<close> or \<open>quota\<close> (its status code is not looked at), else \<open>b\<close>; for the
  feedback module, \<open>2 b\<close> when the message contains \<open>429\<close> or \<open>quota\<close>, else \<open>b\<close>.
\<close>

theorem retry_first_wait:
  "outcomes 0 = Inl e \<and> outcomes (Suc 0) = Inr v \<longrightarrow>
     waits (events (snd (retry_websearch (scripted outcomes) (Suc r) b \<lparr>ext = 0, events = []\<rparr>)))
       = [if statusCode e = Some 429 then 4 * b else b]
   \<and> waits (events (snd (retry_engine (scripted outcomes) (Suc r) b \<lparr>ext = 0, events = []\<rparr>)))
       = [if messageIncludes e ''429'' \<or> messageIncludes e ''quota'' then 4 * b else b]
   \<and> waits (events (snd (retry_feedback (scripted outcomes) (Suc r) b \<lparr>ext = 0, events = []\<rparr>)))
       = [if messageIncludes e ''429'' \<or> messageIncludes e ''quota'' then 2 * b else b]"
proof (intro impI conjI)
  assume h: "outcomes 0 = Inl e \<and> outcomes (Suc 0) = Inr v"
  show "waits (events (snd (retry_websearch (scripted outcomes) (Suc r) b \<lparr>ext = 0, events = []\<rparr>)))
       = [if statusCode e = Some 429 then 4 * b else b]"
    using h by (simp add: retry_websearch_first_wait)
  show "waits (events (snd (retry_engine (scripted outcomes) (Suc r) b \<lparr>ext = 0, events = []\<rparr>)))
       = [if messageIncludes e ''429'' \<or> messageIncludes e ''quota'' then 4 * b else b]"
    using h by (simp add: retry_engine_first_wait)
  show "waits (events (snd (retry_feedback (scripted outcomes) (Suc r) b \<lparr>ext = 0, events = []\<rparr>)))
       = [if messageIncludes e ''429'' \<or> messageIncludes e ''quota'' then 2 * b else b]"
    using h by (simp add: retry_feedback_first_wait)
qed

theorem retry_first_wait_witness:
  "waits (events (snd (retry_websearch
       (scripted (\<lambda>i. if i = 0 then Inl (JsError (Some ''Too many requests'') (Some 429)) else Inr (7::nat)))
       3 2000 \<lparr>ext = 0, events = []\<rparr>))) = [8000]
   \<and> waits (events (snd (retry_engine
       (scripted (\<lambda>i. if i = 0 then Inl (JsError (Some ''Too many requests'') (Some 429)) else Inr (7::nat)))
       3 2000 \<lparr>ext = 0, events = []\<rparr>))) = [2000]
   \<and> waits (events (snd (retry_feedback
       (scripted (\<lambda>i. if i = 0 then Inl (JsError (Some ''Too many requests'') (Some 429)) else Inr (7::nat)))
       3 1000 \<lparr>ext = 0, events = []\<rparr>))) = [1000]"
  using retry_first_wait
     [of "\<lambda>i. if i = 0 then Inl (JsError (Some ''Too many requests'') (Some 429)) else Inr (7::nat)"
         "JsError (Some ''Too many requests'') (Some 429)" 7 2 2000]
    retry_first_wait
     [of "\<lambda>i. if i = 0 then Inl (JsError (Some ''Too many requests'') (Some 429)) else Inr (7::nat)"
         "JsError (Some ''Too many requests'') (Some 429)" 7 2 1000]
  by (simp add: messageIncludes_def)

text \<open>
  The claim fails as it is stated for every wrapper: in the feedback module a failure whose
  message contains \<open>quota\<close> waits \<open>2 b\<close>, not \<open>4 b\<close>; the search client does not take that
  message for a rate limit; the research engine does not take the status code 429 for one.
\<close>

theorem retry_first_wait_counterexample:
  "waits (events (snd (retry_feedback
       (scripted (\<lambda>i. if i = 0 then Inl (Error ''quota exceeded'') else Inr (7::nat)))
       3 1000 \<lparr>ext = 0, events = []\<rparr>))) = [2000]
   \<and> waits (events (snd (retry_feedback
       (scripted (\<lambda>i. if i = 0 then Inl (Error ''quota exceeded'') else Inr (7::nat)))
       3 1000 \<lparr>ext = 0, events = []\<rparr>))) \<noteq> [4 * 1000]
   \<and> waits (events (snd (retry_websearch
       (scripted (\<lambda>i. if i = 0 then Inl (Error ''quota exceeded'') else Inr (7::nat)))
       3 2000 \<lparr>ext = 0, events = []\<rparr>))) = [2000]
   \<and> waits (events (snd (retry_engine
       (scripted (\<lambda>i. if i = 0 then Inl (JsError (Some ''Too many requests'') (Some 429)) else Inr (7::nat)))
       3 2000 \<lparr>ext = 0, events = []\<rparr>))) = [2000]"
  using retry_feedback_first_wait
     [of "\<lambda>i. if i = 0 then Inl (Error ''quota exceeded'') else Inr (7::nat)" 0 "Error ''quota exceeded''" 7 2 1000 "[]"]
    retry_websearch_first_wait
     [of "\<lambda>i. if i = 0 then Inl (Error ''quota exceeded'') else Inr (7::nat)" 0 "Error ''quota exceeded''" 7 2 2000 "[]"]
    retry_engine_first_wait
     [of "\<lambda>i. if i = 0 then Inl (JsError (Some ''Too many requests'') (Some 429)) else Inr (7::nat)" 0
         "JsError (Some ''Too many requests'') (Some 429)" 7 2 2000 "[]"]
  by (simp add: messageIncludes_def Error_def)


section \<open>Properties of the extraction\<close>

lemma indexOf_ge: "- 1 \<le> indexOf s c"
  by (induction s) (auto simp: Let_def)

lemma indexOf_absent: "indexOf s c = - 1 \<longleftrightarrow> c \<notin> set s"
proof (induction s)
  case Nil
  show ?case by simp
next
  case (Cons x s)
  have "- 1 \<le> indexOf s c" by (rule indexOf_ge)
  then show ?case using Cons by (auto simp: Let_def)
qed

lemma lastIndexOf_ge: "- 1 \<le> lastIndexOf s c"
  by (induction s) (auto simp: Let_def)

lemma lastIndexOf_absent: "lastIndexOf s c = - 1 \<longleftrightarrow> c \<notin> set s"
proof (induction s)
  case Nil
  show ?case by simp
next
  case (Cons x s)
  have "- 1 \<le> lastIndexOf s c" by (rule lastIndexOf_ge)
  then show ?case using Cons by (auto simp: Let_def)
qed

lemma indexOf_first: "c \<notin> set a \<Longrightarrow> indexOf (a @ c # b) c = int (length a)"
  by (induction a) (auto simp: Let_def)

lemma lastIndexOf_last: "c \<notin> set b \<Longrightarrow> lastIndexOf (a @ c # b) c = int (length a)"
proof (induction a)
  case Nil
  then show ?case by (simp add: Let_def lastIndexOf_absent)
next
  case (Cons x a)
  then show ?case by (simp add: Let_def)
qed

lemma indexOf_split:
  "c \<in> set s \<Longrightarrow> \<exists>a b. s = a @ c # b \<and> c \<notin> set a \<and> indexOf s c = int (length a)"
proof -
  assume "c \<in> set s"
  then obtain a b where "s = a @ c # b" "c \<notin> set a"
    by (meson split_list_first)
  then show ?thesis using indexOf_first by blast
qed

lemma lastIndexOf_split:
  "c \<in> set s \<Longrightarrow> \<exists>a b. s = a @ c # b \<and> c \<notin> set b \<and> lastIndexOf s c = int (length a)"
proof -
  assume "c \<in> set s"
  then obtain a b where "s = a @ c # b" "c \<notin> set b"
    by (meson split_list_last)
  then show ?thesis using lastIndexOf_last by blast
qed


lemma substring_swapped:
  "substring (a @ m @ b) (int (length a) + int (length m)) (int (length a)) = m"
  by (simp add: substring_def Let_def min_def max_def)

lemma extractJSON_unfenced:
  "codeBlockMatch text = None \<Longrightarrow>
   extractJSON text =
     (if CHR ''{'' \<notin> set text \<or> CHR ''}'' \<notin> set text then None
      else Some (substring text (indexOf text (CHR ''{'')) (lastIndexOf text (CHR ''}'') + 1)))"
  by (simp add: extractJSON_def Let_def indexOf_absent lastIndexOf_absent)

lemma braces_crossed:
  assumes open_in: "CHR ''{'' \<in> set text" and close_in: "CHR ''}'' \<in> set text"
    and crossed: "lastIndexOf text (CHR ''}'') < indexOf text (CHR ''{'')"
  shows "\<exists>a m b. text = a @ [CHR ''}''] @ m @ [CHR ''{''] @ b
      \<and> int (length a) = lastIndexOf text (CHR ''}'')
      \<and> int (length a + 1 + length m) = indexOf text (CHR ''{'')
      \<and> CHR ''{'' \<notin> set m \<and> CHR ''}'' \<notin> set m"
proof -
  from close_in obtain a r where a: "text = a @ CHR ''}'' # r" "CHR ''}'' \<notin> set r"
      "lastIndexOf text (CHR ''}'') = int (length a)"
    using lastIndexOf_split by blast
  from open_in obtain p b where p: "text = p @ CHR ''{'' # b" "CHR ''{'' \<notin> set p"
      "indexOf text (CHR ''{'') = int (length p)"
    using indexOf_split by blast
  have len: "length a < length p"
    using crossed a(3) p(3) by simp
  have eq: "a @ CHR ''}'' # r = p @ CHR ''{'' # b"
    using a(1) p(1) by simp
  then obtain us where us: "a @ us = p \<and> CHR ''}'' # r = us @ CHR ''{'' # b
      \<or> a = p @ us \<and> us @ CHR ''}'' # r = CHR ''{'' # b"
    by (auto simp: append_eq_append_conv2)
  have first: "a @ us = p \<and> CHR ''}'' # r = us @ CHR ''{'' # b"
    using us len by auto
  then have "us \<noteq> []" using len by auto
  then obtain m where m: "us = CHR ''}'' # m" "r = m @ CHR ''{'' # b"
    using first by (cases us) auto
  have "text = a @ [CHR ''}''] @ m @ [CHR ''{''] @ b"
    using a(1) m(2) by simp
  moreover have "int (length a + 1 + length m) = indexOf text (CHR ''{'')"
    using first m(1) p(3) by auto
  moreover have "CHR ''{'' \<notin> set m"
    using first m(1) p(2) by auto
  moreover have "CHR ''}'' \<notin> set m"
    using m(2) a(2) by auto
  ultimately show ?thesis
    using a(3) by auto
qed

text \<open>
  C10. On a text without a fenced block, the \<open>extractJSON\<close> of the feedback module and of
  the research engine returns \<open>null\<close> exactly when the text has no \<open>{\<close> or no \<open>}\<close>. When it
  has both and the last \<open>}\<close> stands before the first \<open>{\<close>, it returns the text strictly
  between the two (\<open>substring\<close> swaps its arguments), which has no brace at all and so is
  not a JSON object.
\<close>

theorem extractJSON_null_iff:
  "codeBlockMatch text = None \<longrightarrow>
     (extractJSON text = None \<longleftrightarrow> CHR ''{'' \<notin> set text \<or> CHR ''}'' \<notin> set text)
   \<and> (CHR ''{'' \<in> set text \<and> CHR ''}'' \<in> set text
        \<and> lastIndexOf text (CHR ''}'') < indexOf text (CHR ''{'') \<longrightarrow>
        (\<exists>a m b. text = a @ [CHR ''}''] @ m @ [CHR ''{''] @ b
            \<and> int (length a) = lastIndexOf text (CHR ''}'')
            \<and> int (length a + 1 + length m) = indexOf text (CHR ''{'')
            \<and> extractJSON text = Some m \<and> CHR ''{'' \<notin> set m \<and> CHR ''}'' \<notin> set m))"
proof (intro impI conjI)
  assume nofence: "codeBlockMatch text = None"
  show "extractJSON text = None \<longleftrightarrow> CHR ''{'' \<notin> set text \<or> CHR ''}'' \<notin> set text"
    by (simp add: extractJSON_unfenced [OF nofence])
  assume h: "CHR ''{'' \<in> set text \<and> CHR ''}'' \<in> set text
        \<and> lastIndexOf text (CHR ''}'') < indexOf text (CHR ''{'')"
  then obtain a m b where amb: "text = a @ [CHR ''}''] @ m @ [CHR ''{''] @ b"
      "int (length a) = lastIndexOf text (CHR ''}'')"
      "int (length a + 1 + length m) = indexOf text (CHR ''{'')"
      "CHR ''{'' \<notin> set m" "CHR ''}'' \<notin> set m"
    using braces_crossed by blast
  have i: "indexOf text (CHR ''{'') = int (length (a @ [CHR ''}''])) + int (length m)"
    using amb(3) by simp
  have j: "lastIndexOf text (CHR ''}'') + 1 = int (length (a @ [CHR ''}'']))"
    using amb(2) by simp
  have t: "text = (a @ [CHR ''}'']) @ m @ ([CHR ''{''] @ b)"
    using amb(1) by simp
  have slice: "substring text (indexOf text (CHR ''{'')) (lastIndexOf text (CHR ''}'') + 1) = m"
    unfolding i j by (subst t) (rule substring_swapped)
  have "extractJSON text
      = Some (substring text (indexOf text (CHR ''{'')) (lastIndexOf text (CHR ''}'') + 1))"
    using h by (simp add: extractJSON_unfenced [OF nofence])
  then have "extractJSON text = Some m"
    by (simp only: slice)
  then show "\<exists>a m b. text = a @ [CHR ''}''] @ m @ [CHR ''{''] @ b
            \<and> int (length a) = lastIndexOf text (CHR ''}'')
            \<and> int (length a + 1 + length m) = indexOf text (CHR ''{'')
            \<and> extractJSON text = Some m \<and> CHR ''{'' \<notin> set m \<and> CHR ''}'' \<notin> set m"
    using amb by blast
qed

theorem extractJSON_null_iff_witness:
  "codeBlockMatch ''done } and so {'' = None
   \<and> extractJSON ''done } and so {'' \<noteq> None
   \<and> (\<exists>a m b. ''done } and so {'' = a @ [CHR ''}''] @ m @ [CHR ''{''] @ b
        \<and> extractJSON ''done } and so {'' = Some m \<and> CHR ''{'' \<notin> set m \<and> CHR ''}'' \<notin> set m)"
proof -
  have nofence: "codeBlockMatch ''done } and so {'' = None"
    by code_simp
  have crossed: "lastIndexOf ''done } and so {'' (CHR ''}'') < indexOf ''done } and so {'' (CHR ''{'')"
    by code_simp
  show ?thesis
    using extractJSON_null_iff [of "''done } and so {''"] nofence crossed by auto
qed










section \<open>Properties of the merge\<close>

lemma findIndex_ge: "- 1 \<le> findIndex p xs"
  by (induction xs) (auto simp: Let_def)

lemma findIndex_first:
  "findIndex p xs = int i \<Longrightarrow> i < length xs \<and> p (xs ! i) \<and> (\<forall>j<i. \<not> p (xs ! j))"
proof (induction xs arbitrary: i)
  case Nil
  then show ?case by simp
next
  case (Cons x xs)
  show ?case
  proof (cases "p x")
    case True
    then have "i = 0" using Cons.prems by simp
    then show ?thesis using True by simp
  next
    case False
    have ge: "- 1 \<le> findIndex p xs" by (rule findIndex_ge)
    have ne: "findIndex p xs \<noteq> - 1"
      using Cons.prems False by (auto simp: Let_def split: if_splits)
    then have eq: "findIndex p xs + 1 = int i"
      using Cons.prems False by (simp add: Let_def)
    then obtain k where k: "i = Suc k" "findIndex p xs = int k"
      using ge ne by (cases i) auto
    from Cons.IH [OF k(2)] have "k < length xs" "p (xs ! k)" "\<forall>j<k. \<not> p (xs ! j)"
      by auto
    then show ?thesis
      using k(1) False by (auto simp: nth_Cons split: nat.splits)
  qed
qed

lemma in_dedupFindings:
  "f \<in> set (dedupFindings arr) \<longleftrightarrow>
     (\<exists>i<length arr. arr ! i = f \<and> findIndex (\<lambda>g. title g = title f) arr = int i)"
proof
  assume "f \<in> set (dedupFindings arr)"
  then obtain i where "(i, f) \<in> set (enumerate 0 arr)"
      "findIndex (\<lambda>g. title g = title f) arr = int i"
    by (auto simp: dedupFindings_def)
  then show "\<exists>i<length arr. arr ! i = f \<and> findIndex (\<lambda>g. title g = title f) arr = int i"
    by (auto simp: in_set_enumerate_eq)
next
  assume "\<exists>i<length arr. arr ! i = f \<and> findIndex (\<lambda>g. title g = title f) arr = int i"
  then obtain i where "(i, f) \<in> set (enumerate 0 arr)"
      "findIndex (\<lambda>g. title g = title f) arr = int i"
    by (auto simp: in_set_enumerate_eq)
  then have "(i, f) \<in> set (filter (\<lambda>(i, f). findIndex (\<lambda>g. title g = title f) arr = int i)
      (enumerate 0 arr))"
    by simp
  then show "f \<in> set (dedupFindings arr)"
    unfolding dedupFindings_def by (metis image_eqI set_map snd_conv)
qed

lemma dedupFindings_first:
  "f \<in> set (dedupFindings arr) \<Longrightarrow> List.find (\<lambda>g. title g = title f) arr = Some f"
proof -
  assume "f \<in> set (dedupFindings arr)"
  then obtain i where i: "i < length arr" "arr ! i = f"
      "findIndex (\<lambda>g. title g = title f) arr = int i"
    using in_dedupFindings by blast
  from findIndex_first [OF i(3)] have "\<forall>j<i. \<not> title (arr ! j) = title f"
    by simp
  then show ?thesis
    using i(1,2) by (auto simp: find_Some_iff)
qed

lemma findIndex_found:
  "i < length xs \<Longrightarrow> p (xs ! i) \<Longrightarrow> \<forall>j<i. \<not> p (xs ! j) \<Longrightarrow> findIndex p xs = int i"
proof (induction xs arbitrary: i)
  case Nil
  then show ?case by simp
next
  case (Cons x xs)
  show ?case
  proof (cases i)
    case 0
    then show ?thesis using Cons.prems by simp
  next
    case (Suc k)
    have notx: "\<not> p x" using Cons.prems(3) Suc by auto
    have "findIndex p xs = int k"
      using Cons.prems Suc by (intro Cons.IH) auto
    then show ?thesis using notx Suc by (simp add: Let_def)
  qed
qed

lemma first_in_dedupFindings:
  "List.find (\<lambda>g. title g = title f) arr = Some f \<Longrightarrow> f \<in> set (dedupFindings arr)"
proof -
  assume "List.find (\<lambda>g. title g = title f) arr = Some f"
  then obtain i where i: "i < length arr" "f = arr ! i" "\<forall>j<i. \<not> title (arr ! j) = title f"
    by (auto simp: find_Some_iff)
  then have "findIndex (\<lambda>g. title g = title f) arr = int i"
    by (intro findIndex_found) auto
  then show ?thesis using i(1,2) in_dedupFindings by blast
qed

lemma dedupFindings_distinct: "distinct (map title (dedupFindings arr))"
proof -
  let ?kept = "filter (\<lambda>(i, f). findIndex (\<lambda>g. title g = title f) arr = int i) (enumerate 0 arr)"
  have "distinct ?kept"
    by (simp add: distinct_enumerate)
  moreover have "inj_on (title \<circ> snd) (set ?kept)"
  proof (rule inj_onI)
    fix a b
    assume a: "a \<in> set ?kept" and b: "b \<in> set ?kept" and t: "(title \<circ> snd) a = (title \<circ> snd) b"
    obtain i f where ai: "a = (i, f)" by (cases a)
    obtain j g where bj: "b = (j, g)" by (cases b)
    have "int i = findIndex (\<lambda>h. title h = title f) arr" "int j = findIndex (\<lambda>h. title h = title g) arr"
      using a b ai bj by auto
    moreover have "title f = title g" using t ai bj by simp
    ultimately have "i = j" by simp
    moreover have "arr ! i = f" "arr ! j = g"
      using a b ai bj by (auto simp: in_set_enumerate_eq)
    ultimately show "a = b" using ai bj by simp
  qed
  ultimately have "distinct (map (title \<circ> snd) ?kept)"
    by (simp add: distinct_map)
  then show ?thesis
    by (simp add: dedupFindings_def)
qed

lemma dedupFindings_subseq: "subseq (dedupFindings arr) arr"
proof -
  have "subseq (map snd (filter (\<lambda>(i, f). findIndex (\<lambda>g. title g = title f) arr = int i) (enumerate 0 arr)))
      (map snd (enumerate 0 arr))"
    by (intro subseq_map subseq_filter_left)
  then show ?thesis by (simp add: dedupFindings_def)
qed

lemma remdups_snoc: "remdups (ys @ [x]) = filter (\<lambda>y. y \<noteq> x) (remdups ys) @ [x]"
  by (induction ys) auto

lemma foldl_setAdd:
  "foldl setAdd elems xs = elems @ filter (\<lambda>x. x \<notin> set elems) (rev (remdups (rev xs)))"
proof (induction xs arbitrary: elems)
  case Nil
  show ?case by simp
next
  case (Cons x xs)
  have keep: "rev (remdups (rev (x # xs))) = x # filter (\<lambda>y. y \<noteq> x) (rev (remdups (rev xs)))"
    by (simp add: remdups_snoc rev_filter)
  have step: "foldl setAdd elems (x # xs)
      = setAdd elems x @ filter (\<lambda>y. y \<notin> set (setAdd elems x)) (rev (remdups (rev xs)))"
    by (simp add: Cons.IH)
  show ?case
  proof (cases "x \<in> set elems")
    case True
    have "filter (\<lambda>y. y \<notin> set elems) (filter (\<lambda>y. y \<noteq> x) (rev (remdups (rev xs))))
        = filter (\<lambda>y. y \<notin> set elems) (rev (remdups (rev xs)))"
      using True by (auto intro: filter_cong)
    then show ?thesis
      unfolding step keep using True by (simp add: setAdd_def)
  next
    case False
    have "filter (\<lambda>y. y \<notin> set (elems @ [x])) (rev (remdups (rev xs)))
        = filter (\<lambda>y. y \<notin> set elems) (filter (\<lambda>y. y \<noteq> x) (rev (remdups (rev xs))))"
      by (auto intro: filter_cong)
    then show ?thesis
      unfolding step keep using False by (simp add: setAdd_def)
  qed
qed

lemma newSet_first_occurrences: "newSet xs = rev (remdups (rev xs))"
  by (simp add: newSet_def foldl_setAdd)

text \<open>
  C9. The merge step of \<open>processContents\<close>, for every list of results of chunks. The key
  findings it returns have pairwise distinct titles; a finding is returned exactly when it
  is the first finding with its title in the flattened list, and the findings keep their
  order. The sources it returns have no duplicates, are the sources of the chunks, and
  stand in the order of their first occurrences.
\<close>

theorem mergeResults_deduplicates:
  "distinct (map title (keyFindings (mergeResults chunkResults)))
   \<and> (\<forall>f. f \<in> set (keyFindings (mergeResults chunkResults)) \<longleftrightarrow>
         List.find (\<lambda>g. title g = title f) (concat (map keyFindings chunkResults)) = Some f)
   \<and> subseq (keyFindings (mergeResults chunkResults)) (concat (map keyFindings chunkResults))
   \<and> distinct (sources (mergeResults chunkResults))
   \<and> set (sources (mergeResults chunkResults)) = set (concat (map sources chunkResults))
   \<and> sources (mergeResults chunkResults) = rev (remdups (rev (concat (map sources chunkResults))))"
proof -
  have k: "keyFindings (mergeResults chunkResults) = dedupFindings (concat (map keyFindings chunkResults))"
    by (simp add: mergeResults_def)
  have s: "sources (mergeResults chunkResults) = rev (remdups (rev (concat (map sources chunkResults))))"
    by (simp add: mergeResults_def newSet_first_occurrences)
  have "\<forall>f. f \<in> set (dedupFindings (concat (map keyFindings chunkResults))) \<longleftrightarrow>
      List.find (\<lambda>g. title g = title f) (concat (map keyFindings chunkResults)) = Some f"
    using dedupFindings_first first_in_dedupFindings by blast
  moreover have "distinct (rev (remdups (rev (concat (map sources chunkResults)))))"
    by simp
  moreover have "set (rev (remdups (rev (concat (map sources chunkResults)))))
      = set (concat (map sources chunkResults))"
    by simp
  ultimately show ?thesis
    unfolding k s using dedupFindings_distinct dedupFindings_subseq by blast
qed

text \<open>Findings titled A, B, A: two findings are returned, with the first A.\<close>

theorem mergeResults_deduplicates_witness:
  "keyFindings (mergeResults
      [\<lparr>summary = ''one'',
        keyFindings = [\<lparr>title = ''A'', details = [''first'']\<rparr>, \<lparr>title = ''B'', details = [''second'']\<rparr>],
        sources = [''x'', ''y'']\<rparr>,
       \<lparr>summary = ''two'',
        keyFindings = [\<lparr>title = ''A'', details = [''third'']\<rparr>],
        sources = [''y'', ''x'', ''z'']\<rparr>])
     = [\<lparr>title = ''A'', details = [''first'']\<rparr>, \<lparr>title = ''B'', details = [''second'']\<rparr>]
   \<and> sources (mergeResults
      [\<lparr>summary = ''one'',
        keyFindings = [\<lparr>title = ''A'', details = [''first'']\<rparr>, \<lparr>title = ''B'', details = [''second'']\<rparr>],
        sources = [''x'', ''y'']\<rparr>,
       \<lparr>summary = ''two'',
        keyFindings = [\<lparr>title = ''A'', details = [''third'']\<rparr>],
        sources = [''y'', ''x'', ''z'']\<rparr>])
     = [''x'', ''y'', ''z'']
   \<and> distinct (map title (keyFindings (mergeResults
      [\<lparr>summary = ''one'',
        keyFindings = [\<lparr>title = ''A'', details = [''first'']\<rparr>, \<lparr>title = ''B'', details = [''second'']\<rparr>],
        sources = [''x'', ''y'']\<rparr>,
       \<lparr>summary = ''two'',
        keyFindings = [\<lparr>title = ''A'', details = [''third'']\<rparr>],
        sources = [''y'', ''x'', ''z'']\<rparr>])))"
proof -
  let ?rs = "[\<lparr>summary = ''one'',
        keyFindings = [\<lparr>title = ''A'', details = [''first'']\<rparr>, \<lparr>title = ''B'', details = [''second'']\<rparr>],
        sources = [''x'', ''y'']\<rparr>,
       \<lparr>summary = ''two'',
        keyFindings = [\<lparr>title = ''A'', details = [''third'']\<rparr>],
        sources = [''y'', ''x'', ''z'']\<rparr>]"
  have k: "keyFindings (mergeResults ?rs)
      = [\<lparr>title = ''A'', details = [''first'']\<rparr>, \<lparr>title = ''B'', details = [''second'']\<rparr>]"
    by (simp add: mergeResults_def dedupFindings_def enumerate_eq_zip upt_conv_Cons Let_def)
  have s: "sources (mergeResults ?rs) = [''x'', ''y'', ''z'']"
    by (simp add: mergeResults_def newSet_def setAdd_def)
  show ?thesis
    using mergeResults_deduplicates [of ?rs] k s by simp
qed

section \<open>Properties of the chunks\<close>

text \<open>
  C8. The bound of 15,000 characters does not hold for the chunks. The test before a
  content item is appended compares \<open>currentChunk.length + content.length\<close> with the bound
  and leaves out the two characters of the separator: items of 7,000 and 7,997 characters
  end in one chunk of 15,001 characters, and one item of 15,000 characters in a chunk of
  15,002. An item longer than the bound is a chunk by itself, and when it comes first the
  empty chunk is pushed before it.
\<close>

theorem chunkContents_exceeds:
  "map length (chunkContents [replicate 7000 (CHR ''a''), replicate 7997 (CHR ''b'')]) = [15001]
   \<and> map length (chunkContents [replicate 15000 (CHR ''a'')]) = [15002]
   \<and> map length (chunkContents [replicate 15001 (CHR ''a''), ''b'']) = [0, 15001, 1]"
  by (simp add: chunkContents_def maxChunkSize_def)

section \<open>Properties of the search client\<close>

lemma perform_events: "events (snd (perform ev service w)) = events w @ [ev]"
  by (simp add: perform_def split: prod.splits)

lemma delay_events: "events (delay ms w) = events w @ [Slept ms]"
  by (simp add: delay_def)

lemma retry_websearch_events:
  "\<exists>evs. events (snd (retry_websearch (perform ev service) r b w)) = events w @ evs
      \<and> ev \<in> set evs \<and> (\<forall>x\<in>set evs. x = ev \<or> (\<exists>ms. x = Slept ms))"
proof (induction r arbitrary: b w)
  case 0
  have "events (snd (retry_websearch (perform ev service) 0 b w)) = events (snd (perform ev service w))"
    by (subst retry_websearch.simps) (simp split: prod.splits sum.splits)
  then show ?case by (simp add: perform_events)
next
  case (Suc r)
  obtain res w1 where p: "perform ev service w = (res, w1)"
    by (cases "perform ev service w")
  have w1: "events w1 = events w @ [ev]"
    using perform_events [of ev service w] p by simp
  show ?case
  proof (cases res)
    case (Inr v)
    then have "retry_websearch (perform ev service) (Suc r) b w = (Inr v, w1)"
      by (subst retry_websearch.simps) (simp add: p)
    then show ?thesis using w1 by simp
  next
    case (Inl e)
    define waitTime where "waitTime = (if statusCode e = Some 429 then b * 4 else b)"
    have "retry_websearch (perform ev service) (Suc r) b w
        = retry_websearch (perform ev service) r (waitTime * 2) (delay waitTime w1)"
      by (subst retry_websearch.simps) (simp add: p Inl waitTime_def Let_def)
    moreover obtain evs where "events (snd (retry_websearch (perform ev service) r (waitTime * 2) (delay waitTime w1)))
          = events (delay waitTime w1) @ evs"
        "\<forall>x\<in>set evs. x = ev \<or> (\<exists>ms. x = Slept ms)"
      using Suc.IH by blast
    ultimately have "events (snd (retry_websearch (perform ev service) (Suc r) b w))
          = events w @ (ev # Slept waitTime # evs)"
        "\<forall>x\<in>set (ev # Slept waitTime # evs). x = ev \<or> (\<exists>ms. x = Slept ms)"
      using w1 by (simp_all add: delay_events)
    then show ?thesis by (metis list.set_intros(1))
  qed
qed

lemma mapContents_total:
  "\<forall>c. trimPrompt c 15000 = Inr (trimmed c) \<Longrightarrow>
   mapContents trimPrompt items
     = Inr (map (\<lambda>item. case markdown item of None \<Rightarrow> None
                 | Some c \<Rightarrow> if c = [] then None else Some (trimmed c)) items)"
  by (induction items) (simp_all add: itemContent_def split: option.splits)

lemma compact_contents:
  "compact (map (\<lambda>item. case markdown item of None \<Rightarrow> None
                 | Some c \<Rightarrow> if c = [] then None else Some (trimmed c)) items)
     = filter (\<lambda>t. t \<noteq> [])
         (map trimmed (concat (map (\<lambda>item. case markdown item of None \<Rightarrow> []
                 | Some c \<Rightarrow> if c = [] then [] else [c]) items)))"
  by (induction items) (simp_all split: option.splits)

text \<open>
  C5. \<open>searchWeb\<close> never throws: it returns a list for every query and depth, whatever the
  search service and \<open>trimPrompt\<close> do. When the retries are exhausted it returns the empty
  list. Every request it sends carries the query and the limit \<open>min(depth * 2, 5)\<close>, at least
  one request is sent, and besides the requests it only waits. When the search succeeds
  (and \<open>trimPrompt\<close> returns), the result is the trimmed contents, in order, of the items
  that have content, without the empty ones, and one second of delay follows.
\<close>

theorem searchWeb_never_raises:
  "(\<exists>contents. fst (searchWeb firecrawl_search trimPrompt q depth w) = Inr contents)
   \<and> (\<forall>e. fst (retry_websearch
              (perform (Searched q (min (depth * 2) 5)) (firecrawl_search q (min (depth * 2) 5)))
              3 2000 w) = Inl e \<longrightarrow>
          fst (searchWeb firecrawl_search trimPrompt q depth w) = Inr [])
   \<and> (\<exists>evs. events (snd (searchWeb firecrawl_search trimPrompt q depth w)) = events w @ evs
          \<and> Searched q (min (depth * 2) 5) \<in> set evs
          \<and> (\<forall>ev\<in>set evs. ev = Searched q (min (depth * 2) 5) \<or> (\<exists>ms. ev = Slept ms)))
   \<and> (\<forall>items w1 trimmed.
          retry_websearch
              (perform (Searched q (min (depth * 2) 5)) (firecrawl_search q (min (depth * 2) 5)))
              3 2000 w = (Inr items, w1)
          \<and> (\<forall>c. trimPrompt c 15000 = Inr (trimmed c)) \<longrightarrow>
          searchWeb firecrawl_search trimPrompt q depth w
            = (Inr (filter (\<lambda>t. t \<noteq> [])
                 (map trimmed (concat (map (\<lambda>item. case markdown item of None \<Rightarrow> []
                     | Some c \<Rightarrow> if c = [] then [] else [c]) items)))),
               delay 1000 w1))"
proof -
  let ?call = "retry_websearch
      (perform (Searched q (min (depth * 2) 5)) (firecrawl_search q (min (depth * 2) 5))) 3 2000 w"
  obtain res w1 where call: "?call = (res, w1)"
    by (cases ?call)
  obtain evs where evs: "events w1 = events w @ evs" "Searched q (min (depth * 2) 5) \<in> set evs"
      "\<forall>ev\<in>set evs. ev = Searched q (min (depth * 2) 5) \<or> (\<exists>ms. ev = Slept ms)"
    using retry_websearch_events [of "Searched q (min (depth * 2) 5)" "firecrawl_search q (min (depth * 2) 5)" 3 2000 w]
      call by auto
  have returns: "\<exists>contents. fst (searchWeb firecrawl_search trimPrompt q depth w) = Inr contents"
    by (simp add: searchWeb_def call split: sum.splits)
  have exhausted: "\<forall>e. fst ?call = Inl e \<longrightarrow> fst (searchWeb firecrawl_search trimPrompt q depth w) = Inr []"
    by (simp add: searchWeb_def call split: sum.splits)
  have "snd (searchWeb firecrawl_search trimPrompt q depth w) = w1
      \<or> snd (searchWeb firecrawl_search trimPrompt q depth w) = delay 1000 w1"
    by (simp add: searchWeb_def call split: sum.splits)
  then have "events (snd (searchWeb firecrawl_search trimPrompt q depth w)) = events w @ evs
      \<or> events (snd (searchWeb firecrawl_search trimPrompt q depth w)) = events w @ (evs @ [Slept 1000])"
    using evs(1) by (auto simp: delay_events)
  then have logged: "\<exists>evs. events (snd (searchWeb firecrawl_search trimPrompt q depth w)) = events w @ evs
      \<and> Searched q (min (depth * 2) 5) \<in> set evs
      \<and> (\<forall>ev\<in>set evs. ev = Searched q (min (depth * 2) 5) \<or> (\<exists>ms. ev = Slept ms))"
  proof
    assume "events (snd (searchWeb firecrawl_search trimPrompt q depth w)) = events w @ evs"
    then show ?thesis using evs(2,3) by blast
  next
    assume a: "events (snd (searchWeb firecrawl_search trimPrompt q depth w)) = events w @ (evs @ [Slept 1000])"
    have "Searched q (min (depth * 2) 5) \<in> set (evs @ [Slept 1000])"
      using evs(2) by simp
    moreover have "\<forall>ev\<in>set (evs @ [Slept 1000]). ev = Searched q (min (depth * 2) 5) \<or> (\<exists>ms. ev = Slept ms)"
      using evs(3) by auto
    ultimately show ?thesis using a by blast
  qed
  have success: "\<forall>items w1 trimmed. ?call = (Inr items, w1) \<and> (\<forall>c. trimPrompt c 15000 = Inr (trimmed c)) \<longrightarrow>
      searchWeb firecrawl_search trimPrompt q depth w
        = (Inr (filter (\<lambda>t. t \<noteq> [])
             (map trimmed (concat (map (\<lambda>item. case markdown item of None \<Rightarrow> []
                 | Some c \<Rightarrow> if c = [] then [] else [c]) items)))),
           delay 1000 w1)"
  proof (intro allI impI)
    fix items w1 trimmed
    assume h: "?call = (Inr items, w1) \<and> (\<forall>c. trimPrompt c 15000 = Inr (trimmed c))"
    then have m: "mapContents trimPrompt items
        = Inr (map (\<lambda>item. case markdown item of None \<Rightarrow> None
                 | Some c \<Rightarrow> if c = [] then None else Some (trimmed c)) items)"
      using mapContents_total by blast
    show "searchWeb firecrawl_search trimPrompt q depth w
        = (Inr (filter (\<lambda>t. t \<noteq> [])
             (map trimmed (concat (map (\<lambda>item. case markdown item of None \<Rightarrow> []
                 | Some c \<Rightarrow> if c = [] then [] else [c]) items)))),
           delay 1000 w1)"
      using h by (simp add: searchWeb_def m compact_contents)
  qed
  show ?thesis
    using returns exhausted logged success by blast
qed

theorem searchWeb_never_raises_witness:
  "searchWeb
      (\<lambda>q limit x. (if x < (2::nat) then Inl (JsError (Some ''busy'') (Some 429))
                     else Inr [\<lparr>markdown = Some ''abc''\<rparr>, \<lparr>markdown = None\<rparr>,
                               \<lparr>markdown = Some ''''\<rparr>, \<lparr>markdown = Some ''xyz''\<rparr>], x + 1))
      (\<lambda>c n. Inr (take 2 c)) ''cats'' 2 \<lparr>ext = 0, events = []\<rparr>
     = (Inr [''ab'', ''xy''],
        \<lparr>ext = 3, events = [Searched ''cats'' 4, Slept 8000, Searched ''cats'' 4, Slept 64000,
                             Searched ''cats'' 4, Slept 1000]\<rparr>)
   \<and> fst (searchWeb (\<lambda>q limit x. (Inl (JsError (Some ''down'') (Some 500)), x + (1::nat)))
        (\<lambda>c n. Inr (take 2 c)) ''cats'' 4 \<lparr>ext = 0, events = []\<rparr>) = Inr []"
proof -
  let ?up = "\<lambda>q limit x. (if x < (2::nat) then Inl (JsError (Some ''busy'') (Some 429))
                     else Inr [\<lparr>markdown = Some ''abc''\<rparr>, \<lparr>markdown = None\<rparr>,
                               \<lparr>markdown = Some ''''\<rparr>, \<lparr>markdown = Some ''xyz''\<rparr>], x + 1)"
  let ?down = "\<lambda>q limit x. (Inl (JsError (Some ''down'') (Some 500)) :: js_error + search_item list, x + (1::nat))"
  let ?trim = "\<lambda>c n. Inr (take 2 c) :: js_error + string"
  have up: "retry_websearch (perform (Searched ''cats'' (min (2 * 2) 5)) (?up ''cats'' (min (2 * 2) 5)))
        3 2000 \<lparr>ext = 0, events = []\<rparr>
      = (Inr [\<lparr>markdown = Some ''abc''\<rparr>, \<lparr>markdown = None\<rparr>,
              \<lparr>markdown = Some ''''\<rparr>, \<lparr>markdown = Some ''xyz''\<rparr>],
         \<lparr>ext = 3, events = [Searched ''cats'' 4, Slept 8000, Searched ''cats'' 4, Slept 64000,
                              Searched ''cats'' 4]\<rparr>)"
    by code_simp
  have down: "fst (retry_websearch (perform (Searched ''cats'' (min (4 * 2) 5)) (?down ''cats'' (min (4 * 2) 5)))
        3 2000 \<lparr>ext = 0, events = []\<rparr>) = Inl (JsError (Some ''down'') (Some 500))"
    by code_simp
  have total: "\<forall>c. ?trim c 15000 = Inr (take 2 c)"
    by simp
  show ?thesis
    using searchWeb_never_raises [of ?up ?trim "''cats''" 2 "\<lparr>ext = 0, events = []\<rparr>"]
      searchWeb_never_raises [of ?down ?trim "''cats''" 4 "\<lparr>ext = 0, events = []\<rparr>"]
      up down total
    by (simp add: delay_def)
qed

section \<open>Properties of the feedback questions\<close>

lemma defaultQuestions_length: "length (defaultQuestions q) = 3"
  by (simp add: defaultQuestions_def)

lemma defaultQuestions_ends:
  "\<exists>a b c. defaultQuestions q = [a @ ''?'', b @ ''?'', c @ ''?'']"
proof -
  have "defaultQuestions q
      = [(''What specific aspects of '' @ [dq] @ q @ [dq] @ '' are you most interested in'') @ ''?'',
         ''What are your main priorities or goals for this research'' @ ''?'',
         ''Are there any specific limitations or constraints we should consider'' @ ''?'']"
    unfolding defaultQuestions_def by simp
  then show ?thesis by blast
qed

lemma defaultQuestions_marks: "s \<in> set (defaultQuestions q) \<Longrightarrow> s \<noteq> [] \<and> CHR ''?'' \<in> set s"
proof -
  assume s: "s \<in> set (defaultQuestions q)"
  obtain a b c where "defaultQuestions q = [a @ ''?'', b @ ''?'', c @ ''?'']"
    using defaultQuestions_ends by blast
  then have "s = a @ ''?'' \<or> s = b @ ''?'' \<or> s = c @ ''?''"
    using s by simp
  then show ?thesis by auto
qed

lemma slice0_length:
  "length (slice0 xs n) = (if n < 0 then nat (int (length xs) + n) else min (nat n) (length xs))"
  by (simp add: slice0_def min_def)

lemma slice0_subset: "set (slice0 xs n) \<subseteq> set xs"
  by (auto simp: slice0_def dest: in_set_takeD)

lemma generateFeedback_catches:
  "fst (generateFeedback_try generateContent JSON_parse q n w) = Inl e \<Longrightarrow>
   fst (generateFeedback generateContent JSON_parse q n w) = Inr (slice0 (defaultQuestions q) n)"
proof -
  assume a: "fst (generateFeedback_try generateContent JSON_parse q n w) = Inl e"
  obtain w1 where "generateFeedback_try generateContent JSON_parse q n w = (Inl e, w1)"
    using a by (cases "generateFeedback_try generateContent JSON_parse q n w") simp
  then show ?thesis by (simp add: generateFeedback_def)
qed

lemma generateFeedback_try_fails:
  assumes never: "\<forall>noJson noValid t. \<exists>e. parseQuestions JSON_parse n noJson noValid t = Inl e"
  shows "\<exists>e. fst (generateFeedback_try generateContent JSON_parse q n w) = Inl e"
proof -
  obtain r1 w1 where first: "askModel generateContent (feedbackPrompt q n) w = (r1, w1)"
    by (cases "askModel generateContent (feedbackPrompt q n) w")
  obtain r2 w2 where second: "askModel generateContent (feedbackRetryPrompt q n) w1 = (r2, w2)"
    by (cases "askModel generateContent (feedbackRetryPrompt q n) w1")
  show ?thesis
  proof (cases r1)
    case (Inl e)
    then show ?thesis by (simp add: generateFeedback_try_def first)
  next
    case (Inr result)
    note r1 = Inr
    show ?thesis
    proof (cases result)
      case (Inl e)
      then show ?thesis by (simp add: generateFeedback_try_def first r1)
    next
      case (Inr reply)
      note result = Inr
      obtain e1 where e1: "parseQuestions JSON_parse n ''No JSON found in response''
          ''No valid questions found in response'' reply = Inl e1"
        using never by blast
      show ?thesis
      proof (cases r2)
        case (Inl e)
        then show ?thesis by (simp add: generateFeedback_try_def first r1 result e1 second)
      next
        case (Inr retryResult)
        note r2 = Inr
        show ?thesis
        proof (cases retryResult)
          case (Inl e)
          then show ?thesis by (simp add: generateFeedback_try_def first r1 result e1 second r2)
        next
          case (Inr retryText)
          obtain e2 where e2: "parseQuestions JSON_parse n ''Failed to get JSON response after retry''
              ''No valid questions found in retry response'' retryText = Inl e2"
            using never by blast
          show ?thesis
            by (simp add: generateFeedback_try_def first r1 result e1 second r2 Inr e2)
        qed
      qed
    qed
  qed
qed

text \<open>
  C6, as the code has it. When no attempt yields questions (the body of the outer \<open>try\<close>
  throws; in particular when extraction, parsing or validation fails on every text),
  \<open>generateFeedback\<close> returns \<open>slice(0, numQuestions)\<close> of its three default questions:
  \<open>min(numQuestions, 3)\<close> strings for \<open>numQuestions \<ge> 0\<close>, and \<open>3 + numQuestions\<close> of them
  (none below \<open>-3\<close>) for a negative \<open>numQuestions\<close>. Each is non-empty and contains \<open>?\<close>.
\<close>

theorem generateFeedback_fallback:
  "(\<exists>e. fst (generateFeedback_try generateContent JSON_parse q n w) = Inl e)
     \<or> (\<forall>noJson noValid t. \<exists>e. parseQuestions JSON_parse n noJson noValid t = Inl e) \<longrightarrow>
   fst (generateFeedback generateContent JSON_parse q n w) = Inr (slice0 (defaultQuestions q) n)
   \<and> length (slice0 (defaultQuestions q) n) = (if n < 0 then nat (3 + n) else min (nat n) 3)
   \<and> (\<forall>s\<in>set (slice0 (defaultQuestions q) n). s \<noteq> [] \<and> CHR ''?'' \<in> set s)"
proof (intro impI conjI)
  assume h: "(\<exists>e. fst (generateFeedback_try generateContent JSON_parse q n w) = Inl e)
     \<or> (\<forall>noJson noValid t. \<exists>e. parseQuestions JSON_parse n noJson noValid t = Inl e)"
  have "\<exists>e. fst (generateFeedback_try generateContent JSON_parse q n w) = Inl e"
  proof (rule disjE [OF h])
    assume "\<exists>e. fst (generateFeedback_try generateContent JSON_parse q n w) = Inl e"
    then show ?thesis .
  next
    assume "\<forall>noJson noValid t. \<exists>e. parseQuestions JSON_parse n noJson noValid t = Inl e"
    then show ?thesis by (rule generateFeedback_try_fails)
  qed
  then obtain e where "fst (generateFeedback_try generateContent JSON_parse q n w) = Inl e" ..
  then show "fst (generateFeedback generateContent JSON_parse q n w) = Inr (slice0 (defaultQuestions q) n)"
    by (rule generateFeedback_catches)
next
  have "length (slice0 (defaultQuestions q) n)
      = (if n < 0 then nat (int (length (defaultQuestions q)) + n)
         else min (nat n) (length (defaultQuestions q)))"
    by (rule slice0_length)
  then show "length (slice0 (defaultQuestions q) n) = (if n < 0 then nat (3 + n) else min (nat n) 3)"
    by (simp only: defaultQuestions_length) simp
next
  show "\<forall>s\<in>set (slice0 (defaultQuestions q) n). s \<noteq> [] \<and> CHR ''?'' \<in> set s"
  proof
    fix s
    assume "s \<in> set (slice0 (defaultQuestions q) n)"
    then have "s \<in> set (defaultQuestions q)"
      using slice0_subset by (rule rev_subsetD)
    then show "s \<noteq> [] \<and> CHR ''?'' \<in> set s"
      by (rule defaultQuestions_marks)
  qed
qed

theorem generateFeedback_fallback_witness:
  "fst (generateFeedback (\<lambda>prompt x. (Inr (Inr ''I can only answer in prose.''), x))
        (\<lambda>s. Inl (Error ''SyntaxError'')) ''tea'' 2 \<lparr>ext = (), events = []\<rparr>)
     = Inr [''What specific aspects of '' @ [dq] @ ''tea'' @ [dq] @ '' are you most interested in?'',
            ''What are your main priorities or goals for this research?'']
   \<and> fst (generateFeedback (\<lambda>prompt x. (Inl (Error ''network''), x))
        (\<lambda>s. Inr JNull) ''tea'' 3 \<lparr>ext = (), events = []\<rparr>) = Inr (defaultQuestions ''tea'')"
proof -
  have never: "\<forall>noJson noValid t. \<exists>e.
      parseQuestions (\<lambda>s. Inl (Error ''SyntaxError'')) 2 noJson noValid t = Inl e"
    by (simp add: parseQuestions_def split: option.splits)
  have down: "fst (generateFeedback_try (\<lambda>prompt x. (Inl (Error ''network''), x))
        (\<lambda>s. Inr JNull) ''tea'' 3 \<lparr>ext = (), events = []\<rparr>) = Inl (Error ''network'')"
    by code_simp
  show ?thesis
    using generateFeedback_fallback
        [of "\<lambda>prompt x. (Inr (Inr ''I can only answer in prose.''), x)"
            "\<lambda>s. Inl (Error ''SyntaxError'')" "''tea''" 2 "\<lparr>ext = (), events = []\<rparr>"]
      generateFeedback_fallback
        [of "\<lambda>prompt x. (Inl (Error ''network''), x)" "\<lambda>s. Inr JNull" "''tea''" 3
            "\<lparr>ext = (), events = []\<rparr>"]
      never down
    by (simp add: slice0_def defaultQuestions_def)
qed

text \<open>
  The claim fails for \<open>numQuestions = 5\<close>: there are three default questions only.
\<close>

theorem generateFeedback_fallback_counterexample:
  "fst (generateFeedback (\<lambda>prompt x. (Inr (Inr ''I can only answer in prose.''), x))
        (\<lambda>s. Inl (Error ''SyntaxError'')) ''tea'' 5 \<lparr>ext = (), events = []\<rparr>)
     = Inr (defaultQuestions ''tea'')
   \<and> length (defaultQuestions ''tea'') = 3
   \<and> length (defaultQuestions ''tea'') \<noteq> 5"
proof -
  have never: "\<forall>noJson noValid t. \<exists>e.
      parseQuestions (\<lambda>s. Inl (Error ''SyntaxError'')) 5 noJson noValid t = Inl e"
    by (simp add: parseQuestions_def split: option.splits)
  have "\<exists>e. fst (generateFeedback_try (\<lambda>prompt x. (Inr (Inr ''I can only answer in prose.''), x))
        (\<lambda>s. Inl (Error ''SyntaxError'')) ''tea'' 5 \<lparr>ext = (), events = []\<rparr>) = Inl e"
    using never by (rule generateFeedback_try_fails)
  then have "fst (generateFeedback (\<lambda>prompt x. (Inr (Inr ''I can only answer in prose.''), x))
        (\<lambda>s. Inl (Error ''SyntaxError'')) ''tea'' 5 \<lparr>ext = (), events = []\<rparr>)
      = Inr (slice0 (defaultQuestions ''tea'') 5)"
    using generateFeedback_catches by blast
  then show ?thesis
    by (simp add: slice0_def defaultQuestions_length)
qed

section \<open>Properties of the research engine\<close>




























lemma deepResearch_thrown:
  "deepResearch_try feedback serpQueries search process q breadth depth w = (Inl t, w1) \<Longrightarrow>
   deepResearch feedback serpQueries search process q breadth depth w = deepResearch_catch q t w1"
  by (simp add: deepResearch_def)




end
